theory Spec2Isabelle
  imports Complex_Main "HOL-Library.Multiset"
begin

section \<open>The card game page (js/game.js)\<close>

text \<open>
  The script builds a 52-card deck from two constant tables, reorders it with
  \<^verbatim>\<open>Array.prototype.sort\<close> under a comparator that ignores its arguments and
  returns \<^verbatim>\<open>Math.random() - 0.5\<close>, and writes the image paths of the first four
  cards into the elements \<^verbatim>\<open>card1\<close> .. \<^verbatim>\<open>card4\<close> of the document.

  The repository holds two versions of the file. They differ in the directory
  prefix of the image paths and in a block of console diagnostics at the end of
  the second version.
\<close>

subsection \<open>Cards and the deck\<close>

text \<open>
  \<^verbatim>\<open>const CARD_VALUES = ['A', '2', ..., '10', 'J', 'Q', 'K'];\<close>
  \<^verbatim>\<open>const CARD_SUITS = { 'hearts': 'H', 'diamonds': 'D', 'clubs': 'C', 'spades': 'S' };\<close>

  \<^verbatim>\<open>Object.entries\<close> lists string keys in insertion order, so the object literal is
  kept as an association list.
\<close>

definition CARD_VALUES :: "string list" where
  "CARD_VALUES =
     ''A'' # ''2'' # ''3'' # ''4'' # ''5'' # ''6'' # ''7'' # ''8'' # ''9'' # ''10'' #
     ''J'' # ''Q'' # ''K'' # []"

definition CARD_SUITS :: "(string \<times> string) list" where
  "CARD_SUITS = [(''hearts'', ''H''), (''diamonds'', ''D''), (''clubs'', ''C''),
                 (''spades'', ''S'')]"

text \<open>
  The object literal \<^verbatim>\<open>{ value, suitCode, fileName: `${value}${suitCode}.png` }\<close>.
  The field \<^verbatim>\<open>value\<close> is called \<open>cvalue\<close> here.
\<close>

record card =
  cvalue :: string
  suitCode :: string
  fileName :: string

definition Object_entries :: "(string \<times> string) list \<Rightarrow> (string \<times> string) list" where
  "Object_entries obj = obj"

definition flatMap :: "('a \<Rightarrow> 'b list) \<Rightarrow> 'a list \<Rightarrow> 'b list" where
  "flatMap f xs = concat (map f xs)"

definition build_deck :: "card list" where
  "build_deck =
     flatMap (\<lambda>v.
       map (\<lambda>(suitName, sc). \<lparr>cvalue = v, suitCode = sc, fileName = v @ sc @ ''.png''\<rparr>)
         (Object_entries CARD_SUITS))
       CARD_VALUES"

text \<open>The (rank, suit code) pair that identifies a card.\<close>

definition card_key :: "card \<Rightarrow> string \<times> string" where
  "card_key c = (cvalue c, suitCode c)"

subsection \<open>The random source and the comparator\<close>

text \<open>
  \<^verbatim>\<open>Math.random\<close> is modelled by the sequence of the numbers it is going to
  return, \<open>rs 0\<close> being the next one; a call takes that and leaves the rest.

  The comparator \<^verbatim>\<open>() => Math.random() - 0.5\<close> takes no parameters: whatever two
  elements the engine hands it are dropped. The sort below only tests the sign
  of the result. On doubles in the interval from 0 up to 1 the subtraction of
  0.5 has the sign of the exact difference, so the value is kept as a real.
\<close>

type_synonym random_source = "nat \<Rightarrow> real"

definition Math_random :: "random_source \<Rightarrow> real \<times> random_source" where
  "Math_random rs = (rs 0, \<lambda>n. rs (Suc n))"

definition comparefn :: "random_source \<Rightarrow> real \<times> random_source" where
  "comparefn rs = (let (r, rs') = Math_random rs in (r - 1 / 2, rs'))"

subsection \<open>The engine's sort\<close>

text \<open>
  ECMAScript leaves the sequence of comparator calls of \<^verbatim>\<open>Array.prototype.sort\<close>
  to the implementation, and the resulting order too when the comparator is
  not consistent, as here. The model follows V8's TimSort. For an array of
  fewer than 64 elements its minimal run length is the length of the array, so
  the whole array is one run: the engine counts the initial run (reversing it
  when it is descending) and extends it to the full length by binary
  insertion. The deck has 52 elements. Merging of several runs, which needs 64
  elements or more, does not occur in this program and is not modelled.
\<close>

text \<open>
  The loop of \<^verbatim>\<open>CountAndMakeRun\<close>: from index \<open>idx\<close> on, each element is compared
  with its predecessor; the run ends at the first comparison that breaks the
  direction fixed by the first one.
\<close>

function count_run :: "bool \<Rightarrow> nat \<Rightarrow> nat \<Rightarrow> nat \<Rightarrow> random_source \<Rightarrow> nat \<times> random_source" where
  "count_run isDescending high idx runLength rs =
     (if idx < high then
        (let (order, rs') = comparefn rs in
         if isDescending then
           (if order \<ge> 0 then (runLength, rs')
            else count_run isDescending high (idx + 1) (runLength + 1) rs')
         else
           (if order < 0 then (runLength, rs')
            else count_run isDescending high (idx + 1) (runLength + 1) rs'))
      else (runLength, rs))"
  by pat_completeness auto
termination
  by (relation "measure (\<lambda>(d, high, idx, n, rs). high - idx)") auto

declare count_run.simps [simp del]

text \<open>
  The binary search of \<^verbatim>\<open>BinaryInsertionSort\<close> for the position of the pivot in
  the sorted prefix: \<open>order < 0\<close> moves \<open>right\<close> down to \<open>mid\<close>, anything else moves
  \<open>left\<close> up past \<open>mid\<close>.
\<close>

function binary_search :: "nat \<Rightarrow> nat \<Rightarrow> random_source \<Rightarrow> nat \<times> random_source" where
  "binary_search left right rs =
     (if left < right then
        (let mid = left + (right - left) div 2;
             (order, rs') = comparefn rs
         in if order < 0 then binary_search left mid rs'
            else binary_search (mid + 1) right rs')
      else (left, rs))"
  by pat_completeness auto
termination
  by (relation "measure (\<lambda>(left, right, rs). right - left)") auto

declare binary_search.simps [simp del]

text \<open>
  One round of the insertion: the pivot \<open>work[start]\<close> is taken out, the elements
  from \<open>left\<close> up to \<open>start - 1\<close> move one place up, and the pivot goes to \<open>left\<close>.
  The engine moves the elements one by one in a loop; the list is rebuilt here
  from the part before \<open>left\<close>, the pivot, the part from \<open>left\<close> up to the old
  place of the pivot, and the rest.
\<close>

definition insert_pivot :: "'a list \<Rightarrow> nat \<Rightarrow> random_source \<Rightarrow> 'a list \<times> random_source" where
  "insert_pivot work start rs =
     (let pivot = work ! start;
          (left, rs') = binary_search 0 start rs
      in (take left work @ [pivot] @ drop left (take start work) @ drop (start + 1) work,
          rs'))"

text \<open>
  The insertion rounds for \<open>start\<close>, \<open>start + 1\<close>, ... up to \<open>high - 1\<close>. The engine
  starts one place later when the sorted prefix is empty; the prefix is the
  initial run here, which has two elements at least.
\<close>

function binary_insertion_sort ::
    "'a list \<Rightarrow> nat \<Rightarrow> nat \<Rightarrow> random_source \<Rightarrow> 'a list \<times> random_source" where
  "binary_insertion_sort work start high rs =
     (if start < high then
        (let (work', rs') = insert_pivot work start rs
         in binary_insertion_sort work' (start + 1) high rs')
      else (work, rs))"
  by pat_completeness auto
termination
  by (relation "measure (\<lambda>(work, start, high, rs). high - start)") auto

declare binary_insertion_sort.simps [simp del]

definition reverse_range :: "'a list \<Rightarrow> nat \<Rightarrow> 'a list" where
  "reverse_range work n = rev (take n work) @ drop n work"

text \<open>
  \<^verbatim>\<open>array.sort(comparefn)\<close> for an array shorter than 64 elements. Arrays of
  length 0 and 1 are returned without a call of the comparator. Otherwise the
  first comparison (of the second element with the first) fixes the direction
  of the initial run, \<open>count_run\<close> finds its length starting from two, a
  descending run is reversed in place, and the remaining elements are inserted.
\<close>

definition array_sort :: "'a list \<Rightarrow> random_source \<Rightarrow> 'a list \<times> random_source" where
  "array_sort work rs =
     (if length work < 2 then (work, rs)
      else
        (let (order, rs1) = comparefn rs;
             isDescending = (order < 0);
             (runLength, rs2) = count_run isDescending (length work) 2 2 rs1;
             work1 = (if isDescending then reverse_range work runLength else work)
         in binary_insertion_sort work1 runLength (length work) rs2))"

text \<open>The first statement of \<^verbatim>\<open>newGame\<close>: the deck, built and then sorted.\<close>

definition shuffled_deck :: "random_source \<Rightarrow> card list \<times> random_source" where
  "shuffled_deck rs = array_sort build_deck rs"

text \<open>\<^verbatim>\<open>xs.slice(start, stop)\<close> for indices that are not negative.\<close>

definition slice :: "nat \<Rightarrow> nat \<Rightarrow> 'a list \<Rightarrow> 'a list" where
  "slice start stop xs = take (stop - start) (drop start xs)"

text \<open>The four cards \<^verbatim>\<open>deck.slice(0, 4)\<close> that \<^verbatim>\<open>forEach\<close> goes through.\<close>

definition selected_cards :: "random_source \<Rightarrow> card list" where
  "selected_cards rs = slice 0 4 (fst (shuffled_deck rs))"

subsection \<open>The page\<close>

text \<open>
  The script reaches the page through \<^verbatim>\<open>document.getElementById\<close> only. The
  document is a map from element ids to elements, an element has the two
  properties the script touches (\<^verbatim>\<open>src\<close> and its registered event listeners),
  and the state of the page also holds the random source and the lines written
  to the console. \<^verbatim>\<open>getElementById\<close> returns \<^verbatim>\<open>null\<close> for an id the document
  does not have; reading or writing a property of \<^verbatim>\<open>null\<close> throws a
  \<^verbatim>\<open>TypeError\<close>. A statement completes normally or throws, and in both cases
  leaves a state behind.
\<close>

datatype error = TypeError

datatype completion = Normal | Throw error

datatype listener = NewGame

record element =
  src :: string
  listeners :: "(string \<times> listener) list"

record page =
  document :: "string \<rightharpoonup> element"
  rng :: random_source
  console :: "string list"

definition getElementById :: "string \<Rightarrow> page \<Rightarrow> element option" where
  "getElementById ident pg = document pg ident"

text \<open>\<^verbatim>\<open>document.getElementById(ident).src = path\<close>\<close>

definition set_src :: "string \<Rightarrow> string \<Rightarrow> page \<Rightarrow> completion \<times> page" where
  "set_src ident path pg =
     (case getElementById ident pg of
        None \<Rightarrow> (Throw TypeError, pg)
      | Some el \<Rightarrow> (Normal, pg\<lparr>document := (document pg)(ident \<mapsto> el\<lparr>src := path\<rparr>)\<rparr>))"

text \<open>
  \<^verbatim>\<open>el.addEventListener(event, l)\<close>: a listener that is already registered for the
  event is not registered again.
\<close>

definition addEventListener :: "string \<Rightarrow> listener \<Rightarrow> element \<Rightarrow> element" where
  "addEventListener event l el =
     (if (event, l) \<in> set (listeners el) then el
      else el\<lparr>listeners := listeners el @ [(event, l)]\<rparr>)"

text \<open>The decimal numeral of a number, as a template literal prints it.\<close>

definition digit_char :: "nat \<Rightarrow> char" where
  "digit_char d = ''0123456789'' ! d"

fun decimal :: "nat \<Rightarrow> string" where
  "decimal n =
     (if n < 10 then [digit_char n] else decimal (n div 10) @ [digit_char (n mod 10)])"

declare decimal.simps [simp del]

text \<open>
  \<^verbatim>\<open>xs.forEach(f)\<close> calls \<open>f\<close> on each element and its index, in ascending
  order of the index; an exception thrown by a call ends the loop.
\<close>

fun forEach_from ::
    "nat \<Rightarrow> ('a \<Rightarrow> nat \<Rightarrow> page \<Rightarrow> completion \<times> page) \<Rightarrow> 'a list \<Rightarrow> page \<Rightarrow> completion \<times> page" where
  "forEach_from i f [] pg = (Normal, pg)"
| "forEach_from i f (x # xs) pg =
     (case f x i pg of
        (Normal, pg') \<Rightarrow> forEach_from (i + 1) f xs pg'
      | (Throw e, pg') \<Rightarrow> (Throw e, pg'))"

definition forEach ::
    "('a \<Rightarrow> nat \<Rightarrow> page \<Rightarrow> completion \<times> page) \<Rightarrow> 'a list \<Rightarrow> page \<Rightarrow> completion \<times> page" where
  "forEach f xs pg = forEach_from 0 f xs pg"

subsection \<open>newGame and the load handler, first version\<close>

definition newGame :: "page \<Rightarrow> completion \<times> page" where
  "newGame pg =
     (let (deck, rs') = shuffled_deck (rng pg)
      in forEach
           (\<lambda>card i. set_src (''card'' @ decimal (i + 1))
                        (''assets/pictures/'' @ fileName card))
           (slice 0 4 deck) (pg\<lparr>rng := rs'\<rparr>))"

text \<open>
  \<^verbatim>\<open>window.onload\<close>: the button is looked up, \<^verbatim>\<open>newGame\<close> is registered for its
  clicks, and \<^verbatim>\<open>newGame\<close> runs once.
\<close>

definition onload :: "page \<Rightarrow> completion \<times> page" where
  "onload pg =
     (case getElementById ''new-game-btn'' pg of
        None \<Rightarrow> (Throw TypeError, pg)
      | Some btn \<Rightarrow>
          newGame (pg\<lparr>document :=
            (document pg)(''new-game-btn'' \<mapsto> addEventListener ''click'' NewGame btn)\<rparr>))"

subsection \<open>newGame and the load handler, second version\<close>

text \<open>
  The second version of the file has the same two tables and the same first
  statement in \<^verbatim>\<open>newGame\<close>; the path written to a slot starts with
  \<^verbatim>\<open>assets/pictures/classic/\<close>.
\<close>

definition newGame_classic :: "page \<Rightarrow> completion \<times> page" where
  "newGame_classic pg =
     (let (deck, rs') = shuffled_deck (rng pg)
      in forEach
           (\<lambda>card i. set_src (''card'' @ decimal (i + 1))
                        (''assets/pictures/classic/'' @ fileName card))
           (slice 0 4 deck) (pg\<lparr>rng := rs'\<rparr>))"

definition onload_classic :: "page \<Rightarrow> completion \<times> page" where
  "onload_classic pg =
     (case getElementById ''new-game-btn'' pg of
        None \<Rightarrow> (Throw TypeError, pg)
      | Some btn \<Rightarrow>
          newGame_classic (pg\<lparr>document :=
            (document pg)(''new-game-btn'' \<mapsto> addEventListener ''click'' NewGame btn)\<rparr>))"

text \<open>
  The diagnostics at the end of the second version. When the script is loaded
  it prints one line and creates four images that belong to no document. What
  is printed later depends on whether the browser could load each image:
  \<open>image_probe_result\<close> is the handler (\<^verbatim>\<open>onload\<close> or \<^verbatim>\<open>onerror\<close>) that the
  browser calls for a probe.
\<close>

definition image_probe_start :: "page \<Rightarrow> page" where
  "image_probe_start pg = pg\<lparr>console := console pg @ [''Testing image paths:'']\<rparr>"

definition image_probe_result :: "string \<Rightarrow> bool \<Rightarrow> page \<Rightarrow> page" where
  "image_probe_result code loaded pg =
     pg\<lparr>console := console pg @
        [code @ (if loaded then ''.png loads OK'' else ''.png FAILED'')]\<rparr>"

subsection \<open>Notions used in the statements\<close>

text \<open>The ids of the four display slots, in the order of the indices 0 to 3.\<close>

definition slot_ids :: "string list" where
  "slot_ids = [''card1'', ''card2'', ''card3'', ''card4'']"

definition has_slots :: "page \<Rightarrow> bool" where
  "has_slots pg = list_all (\<lambda>ident. document pg ident \<noteq> None) slot_ids"

text \<open>The \<^verbatim>\<open>src\<close> of the element with a given id, if the document has one.\<close>

definition src_of :: "page \<Rightarrow> string \<Rightarrow> string option" where
  "src_of pg ident = map_option src (document pg ident)"

text \<open>
  A list of assignments \<^verbatim>\<open>document.getElementById(ident).src = path\<close>, carried
  out from left to right; the first one that throws ends the sequence.
\<close>

fun assign_all :: "(string \<times> string) list \<Rightarrow> page \<Rightarrow> completion \<times> page" where
  "assign_all [] pg = (Normal, pg)"
| "assign_all ((ident, path) # rest) pg =
     (case set_src ident path pg of
        (Normal, pg') \<Rightarrow> assign_all rest pg'
      | (Throw e, pg') \<Rightarrow> (Throw e, pg'))"

text \<open>
  The pattern of the specification for asset names,
  \<^verbatim>\<open>^(A|[2-9]|10|J|Q|K)[HDCS]\.png$\<close>, as a regular expression with a matcher:
  \<open>residues r s\<close> lists what is left of \<open>s\<close> after each way of matching a prefix
  of it against \<open>r\<close>, and the anchors ask for a match that leaves nothing.
\<close>

datatype regex =
    Lit string
  | Range char char
  | Class "char list"
  | Alt regex regex
  | Seq regex regex

fun residues :: "regex \<Rightarrow> string \<Rightarrow> string list" where
  "residues (Lit t) s = (if take (length t) s = t then [drop (length t) s] else [])"
| "residues (Range lo hi) s =
     (case s of
        [] \<Rightarrow> []
      | c # cs \<Rightarrow>
          if (of_char lo :: nat) \<le> of_char c \<and> (of_char c :: nat) \<le> of_char hi then [cs]
          else [])"
| "residues (Class cs) s =
     (case s of [] \<Rightarrow> [] | c # rest \<Rightarrow> if c \<in> set cs then [rest] else [])"
| "residues (Alt r1 r2) s = residues r1 s @ residues r2 s"
| "residues (Seq r1 r2) s = concat (map (residues r2) (residues r1 s))"

definition matches_anchored :: "regex \<Rightarrow> string \<Rightarrow> bool" where
  "matches_anchored r s = ([] \<in> set (residues r s))"

definition asset_name_pattern :: regex where
  "asset_name_pattern =
     Seq (Alt (Lit ''A'')
           (Alt (Range (CHR ''2'') (CHR ''9''))
             (Alt (Lit ''10'') (Alt (Lit ''J'') (Alt (Lit ''Q'') (Lit ''K''))))))
         (Seq (Class ''HDCS'') (Lit ''.png''))"

subsection \<open>Example pages\<close>

text \<open>
  A page with the button and the four image elements, none of them with a
  source yet; the same page without the element \<^verbatim>\<open>card3\<close>; and a page with an
  empty document.
\<close>

definition blank_element :: element where
  "blank_element = \<lparr>src = [], listeners = []\<rparr>"

definition game_page :: "random_source \<Rightarrow> page" where
  "game_page rs =
     \<lparr>document = [''new-game-btn'' \<mapsto> blank_element, ''card1'' \<mapsto> blank_element,
                  ''card2'' \<mapsto> blank_element, ''card3'' \<mapsto> blank_element,
                  ''card4'' \<mapsto> blank_element],
      rng = rs, console = []\<rparr>"

definition page_without_card3 :: "random_source \<Rightarrow> page" where
  "page_without_card3 rs =
     \<lparr>document = [''new-game-btn'' \<mapsto> blank_element, ''card1'' \<mapsto> blank_element,
                  ''card2'' \<mapsto> blank_element, ''card4'' \<mapsto> blank_element],
      rng = rs, console = []\<rparr>"

definition empty_page :: "random_source \<Rightarrow> page" where
  "empty_page rs = \<lparr>document = Map.empty, rng = rs, console = []\<rparr>"

text \<open>
  A random source that always returns 0.25, one that always returns 0.75, and
  one that returns 0.25 at every third call, starting with the first, and 0.75
  otherwise.
\<close>

definition always_low :: random_source where
  "always_low = (\<lambda>n. 1 / 4)"

definition always_high :: random_source where
  "always_high = (\<lambda>n. 3 / 4)"

definition every_third_low :: random_source where
  "every_third_low = (\<lambda>n. if n mod 3 = 0 then 1 / 4 else 3 / 4)"

section \<open>Properties\<close>

subsection \<open>The deck\<close>

lemma build_deck_keys:
  "map card_key build_deck =
     List.product CARD_VALUES [''H'', ''D'', ''C'', ''S'']"
  by (simp add: build_deck_def flatMap_def Object_entries_def CARD_VALUES_def CARD_SUITS_def
      card_key_def)

lemma length_build_deck: "length build_deck = 52"
  by (simp add: build_deck_def flatMap_def Object_entries_def CARD_VALUES_def CARD_SUITS_def)

lemma distinct_CARD_VALUES: "distinct CARD_VALUES"
  by (simp add: CARD_VALUES_def)

lemma distinct_build_deck_keys: "distinct (map card_key build_deck)"
  unfolding build_deck_keys by (rule distinct_product) (simp_all add: distinct_CARD_VALUES)

text \<open>
  C2. The deck that \<^verbatim>\<open>newGame\<close> builds before sorting has 52 cards; read in
  order, their (rank, suit code) pairs are the cross product of the thirteen
  ranks A, 2, ..., 10, J, Q, K with the four suit codes H, D, C, S, ranks in
  the outer loop. So every pair occurs, and no pair occurs twice.
\<close>

theorem deck_is_cross_product:
  "length build_deck = 52
   \<and> map card_key build_deck =
       List.product
         (''A'' # ''2'' # ''3'' # ''4'' # ''5'' # ''6'' # ''7'' # ''8'' # ''9'' # ''10'' #
          ''J'' # ''Q'' # ''K'' # [])
         [''H'', ''D'', ''C'', ''S'']
   \<and> distinct (map card_key build_deck)"
  using build_deck_keys length_build_deck distinct_build_deck_keys
  by (simp only: CARD_VALUES_def)

text \<open>
  C4. The file name of a card is its rank followed by its suit code followed
  by \<^verbatim>\<open>.png\<close>: the deck lists, for every rank of \<^verbatim>\<open>CARD_VALUES\<close> and every suit
  code of \<^verbatim>\<open>CARD_SUITS\<close>, the card with that name. Rank A and suit code H give
  \<^verbatim>\<open>AH.png\<close>.
\<close>

theorem asset_name_is_rank_suit_png:
  "build_deck =
     map (\<lambda>(r, s). \<lparr>cvalue = r, suitCode = s, fileName = r @ s @ ''.png''\<rparr>)
       (List.product CARD_VALUES (map snd CARD_SUITS))
   \<and> \<lparr>cvalue = ''A'', suitCode = ''H'', fileName = ''AH.png''\<rparr> \<in> set build_deck"
  by (simp add: build_deck_def flatMap_def Object_entries_def CARD_VALUES_def CARD_SUITS_def)

subsection \<open>The sort permutes\<close>

lemma binary_search_bounds:
  "left \<le> right \<Longrightarrow>
     left \<le> fst (binary_search left right rs) \<and> fst (binary_search left right rs) \<le> right"
proof (induction left right rs rule: binary_search.induct)
  case (1 left right rs)
  show ?case
  proof (cases "left < right")
    case False
    with "1.prems" show ?thesis by (simp add: binary_search.simps)
  next
    case True
    obtain order rs' where c: "comparefn rs = (order, rs')" by (cases "comparefn rs")
    let ?mid = "left + (right - left) div 2"
    have m: "left \<le> ?mid" "?mid < right" using True by auto
    show ?thesis
    proof (cases "order < 0")
      case neg: True
      have "left \<le> fst (binary_search left ?mid rs') \<and> fst (binary_search left ?mid rs') \<le> ?mid"
        using "1.IH"(1)[OF True refl refl c[symmetric] neg] m by simp
      moreover have "binary_search left right rs = binary_search left ?mid rs'"
        using True c neg by (subst binary_search.simps) (simp add: Let_def)
      ultimately show ?thesis using m by simp
    next
      case nonneg: False
      have "?mid + 1 \<le> fst (binary_search (?mid + 1) right rs') \<and> fst (binary_search (?mid + 1) right rs') \<le> right"
        using "1.IH"(2)[OF True refl refl c[symmetric] nonneg] m by simp
      moreover have "binary_search left right rs = binary_search (?mid + 1) right rs'"
        using True c nonneg by (subst binary_search.simps) (simp add: Let_def)
      ultimately show ?thesis using m by simp
    qed
  qed
qed

lemma mset_insert_pivot:
  assumes "start < length work"
  shows "mset (fst (insert_pivot work start rs)) = mset work"
proof -
  obtain left rs' where b: "binary_search 0 start rs = (left, rs')" by (cases "binary_search 0 start rs")
  have le: "left \<le> start" using binary_search_bounds[of 0 start rs] b by simp
  have "take left work = take left (take start work)" using le by (simp add: min_def)
  then have "mset (take left work) + mset (drop left (take start work)) = mset (take start work)"
    by (metis append_take_drop_id mset_append)
  moreover have "mset (take start work @ work ! start # drop (Suc start) work) = mset work"
    by (simp only: id_take_nth_drop[OF assms, symmetric])
  ultimately have "mset (take left work) + {#work ! start#} + mset (drop left (take start work))
      + mset (drop (Suc start) work) = mset work"
    by (simp add: add.assoc [symmetric])
  then show ?thesis
    by (simp add: insert_pivot_def b Let_def add.assoc)
qed

lemma mset_binary_insertion_sort:
  "high \<le> length work \<Longrightarrow> mset (fst (binary_insertion_sort work start high rs)) = mset work"
proof (induction work start high rs rule: binary_insertion_sort.induct)
  case (1 work start high rs)
  show ?case
  proof (cases "start < high")
    case False
    then show ?thesis by (simp add: binary_insertion_sort.simps)
  next
    case True
    obtain work' rs' where ip: "insert_pivot work start rs = (work', rs')" by (cases "insert_pivot work start rs")
    have m: "mset work' = mset work"
      using mset_insert_pivot[of start work rs] True "1.prems" ip by simp
    then have "length work' = length work" by (metis size_mset)
    then have "mset (fst (binary_insertion_sort work' (start + 1) high rs')) = mset work'"
      using "1.IH"[OF True ip[symmetric] refl] "1.prems" by simp
    then show ?thesis using True ip m by (subst binary_insertion_sort.simps) simp
  qed
qed

lemma mset_reverse_range: "mset (reverse_range work n) = mset work"
  by (metis reverse_range_def append_take_drop_id mset_append mset_rev)

lemma length_reverse_range: "length (reverse_range work n) = length work"
  by (simp add: reverse_range_def)

lemma mset_array_sort: "mset (fst (array_sort work rs)) = mset work"
  by (simp add: array_sort_def Let_def split_beta mset_binary_insertion_sort
      mset_reverse_range length_reverse_range)

lemma length_array_sort: "length (fst (array_sort work rs)) = length work"
  by (metis mset_array_sort size_mset)

text \<open>
  C3. Whatever numbers the random source returns, the sorted deck has the
  same cards as the deck that was built, each exactly as often: it is a
  permutation of the 52 cards, and no card is gained, lost or repeated.
\<close>

theorem shuffle_is_permutation:
  "mset (fst (shuffled_deck rs)) = mset build_deck
   \<and> length (fst (shuffled_deck rs)) = 52
   \<and> distinct (map card_key (fst (shuffled_deck rs)))"
proof -
  have m: "mset (fst (shuffled_deck rs)) = mset build_deck"
    by (simp add: shuffled_deck_def mset_array_sort)
  have "mset (map card_key (fst (shuffled_deck rs))) = mset (map card_key build_deck)"
    using arg_cong [OF m, of "image_mset card_key"] by simp
  then have "distinct (map card_key (fst (shuffled_deck rs)))"
    using distinct_build_deck_keys by (metis mset_eq_imp_distinct_iff)
  moreover have "length (fst (shuffled_deck rs)) = 52"
    by (simp add: shuffled_deck_def length_array_sort length_build_deck)
  ultimately show ?thesis using m by simp
qed

subsection \<open>The four selected cards\<close>

lemma length_shuffled_deck: "length (fst (shuffled_deck rs)) = 52"
  by (simp add: shuffled_deck_def length_array_sort length_build_deck)

lemma take_four:
  assumes "4 \<le> length xs"
  shows "take 4 xs = [xs ! 0, xs ! 1, xs ! 2, xs ! 3]"
  using assms by (auto simp: numeral_eq_Suc Suc_le_length_iff)

lemma selected_cards_nth:
  "selected_cards rs =
     [fst (shuffled_deck rs) ! 0, fst (shuffled_deck rs) ! 1,
      fst (shuffled_deck rs) ! 2, fst (shuffled_deck rs) ! 3]"
  unfolding selected_cards_def slice_def
  using take_four [of "fst (shuffled_deck rs)"] by (simp add: length_shuffled_deck)

lemma length_selected_cards: "length (selected_cards rs) = 4"
  by (simp add: selected_cards_nth)

lemma build_deck_names_match:
  "list_all (\<lambda>c. matches_anchored asset_name_pattern (fileName c)) build_deck"
  by (simp add: build_deck_def flatMap_def Object_entries_def CARD_VALUES_def CARD_SUITS_def
      matches_anchored_def asset_name_pattern_def)

lemma set_shuffled_deck: "set (fst (shuffled_deck rs)) = set build_deck"
  using mset_array_sort [of build_deck rs] by (metis shuffled_deck_def mset_eq_setD)

lemma selected_cards_take: "selected_cards rs = take 4 (fst (shuffled_deck rs))"
  by (simp add: selected_cards_def slice_def)

lemma set_selected_cards: "set (selected_cards rs) \<subseteq> set build_deck"
  unfolding selected_cards_take using set_take_subset [of 4 "fst (shuffled_deck rs)"]
  by (simp only: set_shuffled_deck)

lemma distinct_shuffled_keys: "distinct (map card_key (fst (shuffled_deck rs)))"
proof -
  have "mset (map card_key (fst (shuffled_deck rs))) = mset (map card_key build_deck)"
    using arg_cong [OF mset_array_sort [of build_deck rs], of "image_mset card_key"]
    by (simp add: shuffled_deck_def)
  then show ?thesis
    using distinct_build_deck_keys by (metis mset_eq_imp_distinct_iff)
qed

lemma distinct_selected_keys: "distinct (map card_key (selected_cards rs))"
  unfolding selected_cards_take take_map [symmetric]
  by (rule distinct_take) (rule distinct_shuffled_keys)

text \<open>
  C5. Whatever the random source returns, the file name of each of the four
  selected cards matches \<^verbatim>\<open>^(A|[2-9]|10|J|Q|K)[HDCS]\.png$\<close>.
\<close>

theorem selected_asset_names_match_pattern:
  "length (selected_cards rs) = 4
   \<and> list_all (\<lambda>c. matches_anchored asset_name_pattern (fileName c)) (selected_cards rs)"
  using build_deck_names_match set_selected_cards [of rs] length_selected_cards [of rs]
  by (auto simp: list_all_iff)

text \<open>
  The pattern does reject: a rank that is not in the alternation, a suit code
  outside the class, a missing or a different extension, and text after the
  extension.
\<close>

lemma pattern_rejects:
  "\<not> matches_anchored asset_name_pattern ''1H.png''"
  "\<not> matches_anchored asset_name_pattern ''11H.png''"
  "\<not> matches_anchored asset_name_pattern ''AX.png''"
  "\<not> matches_anchored asset_name_pattern ''AH''"
  "\<not> matches_anchored asset_name_pattern ''AH.jpg''"
  "\<not> matches_anchored asset_name_pattern ''AH.pngx''"
  "\<not> matches_anchored asset_name_pattern ''assets/pictures/AH.png''"
  by (simp_all add: matches_anchored_def asset_name_pattern_def)

subsection \<open>newGame as a sequence of assignments\<close>

lemma decimal_digits:
  "decimal 1 = ''1''" "decimal 2 = ''2''" "decimal 3 = ''3''" "decimal 4 = ''4''"
  by (simp_all add: decimal.simps digit_char_def)

lemma decimal_Suc:
  "decimal (Suc 0) = ''1''" "decimal (Suc (Suc 0)) = ''2''"
  using decimal_digits(1,2) by (simp_all add: numeral_2_eq_2)

lemma forEach_from_assign:
  "forEach_from i (\<lambda>card k. set_src (name k) (path card)) xs pg =
     assign_all (map (\<lambda>(k, card). (name k, path card)) (zip [i ..< i + length xs] xs)) pg"
proof (induction xs arbitrary: i pg)
  case Nil
  show ?case by simp
next
  case (Cons x xs)
  have "[i ..< i + length (x # xs)] = i # [Suc i ..< i + length (x # xs)]"
    by (rule upt_conv_Cons) simp
  then have "[i ..< i + length (x # xs)] = i # [i + 1 ..< (i + 1) + length xs]"
    by simp
  then show ?case
    by (simp only: forEach_from.simps Cons.IH zip_Cons_Cons list.map prod.case assign_all.simps)
qed

lemma newGame_forEach:
  "newGame pg =
     forEach (\<lambda>card i. set_src (''card'' @ decimal (i + 1)) (''assets/pictures/'' @ fileName card))
       (selected_cards (rng pg)) (pg\<lparr>rng := snd (shuffled_deck (rng pg))\<rparr>)"
  by (simp add: newGame_def selected_cards_def split_beta)

lemma upt_four: "[0 ..< 4] = [0, 1, 2, 3]"
  by (simp add: upt_conv_Cons)

lemma newGame_assign:
  "newGame pg =
     assign_all (zip slot_ids (map (\<lambda>c. ''assets/pictures/'' @ fileName c) (selected_cards (rng pg))))
       (pg\<lparr>rng := snd (shuffled_deck (rng pg))\<rparr>)"
  unfolding newGame_forEach forEach_def forEach_from_assign
  by (simp add: length_selected_cards upt_four)
     (simp add: selected_cards_nth slot_ids_def decimal_digits decimal_Suc)

lemma set_src_None: "document pg ident = None \<Longrightarrow> set_src ident path pg = (Throw TypeError, pg)"
  by (simp add: set_src_def getElementById_def)

lemma set_src_Some:
  "document pg ident = Some el \<Longrightarrow>
     set_src ident path pg = (Normal, pg\<lparr>document := (document pg)(ident \<mapsto> el\<lparr>src := path\<rparr>)\<rparr>)"
  by (simp add: set_src_def getElementById_def)

lemma set_src_cases:
  obtains "document pg ident = None" "set_src ident path pg = (Throw TypeError, pg)"
  | el where "document pg ident = Some el"
      "set_src ident path pg = (Normal, pg\<lparr>document := (document pg)(ident \<mapsto> el\<lparr>src := path\<rparr>)\<rparr>)"
  by (cases "document pg ident") (auto simp: set_src_None set_src_Some)

lemma assign_all_rng_console:
  "rng (snd (assign_all ws pg)) = rng pg \<and> console (snd (assign_all ws pg)) = console pg"
proof (induction ws arbitrary: pg)
  case Nil
  show ?case by simp
next
  case (Cons w ws)
  obtain ident path where w: "w = (ident, path)" by (cases w)
  show ?case
    by (cases rule: set_src_cases [of pg ident path]) (simp_all add: w Cons.IH)
qed

lemma assign_all_other:
  "ident \<notin> fst ` set ws \<Longrightarrow> document (snd (assign_all ws pg)) ident = document pg ident"
proof (induction ws arbitrary: pg)
  case Nil
  show ?case by simp
next
  case (Cons w ws)
  obtain i path where w: "w = (i, path)" by (cases w)
  with Cons.prems have ne: "ident \<noteq> i" and rest: "ident \<notin> fst ` set ws" by auto
  show ?case
    by (cases rule: set_src_cases [of pg i path]) (simp_all add: w Cons.IH [OF rest] ne)
qed

lemma assign_all_listeners:
  "map_option listeners (document (snd (assign_all ws pg)) ident)
     = map_option listeners (document pg ident)"
proof (induction ws arbitrary: pg)
  case Nil
  show ?case by simp
next
  case (Cons w ws)
  obtain i path where w: "w = (i, path)" by (cases w)
  show ?case
    by (cases rule: set_src_cases [of pg i path]) (simp_all add: w Cons.IH)
qed

lemma assign_all_src:
  "list_all (\<lambda>w. document pg (fst w) \<noteq> None) ws \<Longrightarrow> distinct (map fst ws) \<Longrightarrow>
     map (src_of (snd (assign_all ws pg))) (map fst ws) = map (\<lambda>w. Some (snd w)) ws"
proof (induction ws arbitrary: pg)
  case Nil
  show ?case by simp
next
  case (Cons w ws)
  obtain i path where w: "w = (i, path)" by (cases w)
  from Cons.prems w obtain el where el: "document pg i = Some el" by auto
  let ?pg = "pg\<lparr>document := (document pg)(i \<mapsto> el\<lparr>src := path\<rparr>)\<rparr>"
  have step: "assign_all (w # ws) pg = assign_all ws ?pg"
    by (simp add: w set_src_Some [OF el])
  have all: "list_all (\<lambda>w. document ?pg (fst w) \<noteq> None) ws"
    using Cons.prems(1) by (auto simp: list_all_iff)
  have dist: "distinct (map fst ws)" and fresh: "i \<notin> fst ` set ws"
    using Cons.prems(2) w by auto
  have "src_of (snd (assign_all ws ?pg)) i = Some path"
    by (simp add: src_of_def assign_all_other [OF fresh])
  with Cons.IH [OF all dist] show ?case
    unfolding step by (simp add: w)
qed

lemma newGame_classic_assign:
  "newGame_classic pg =
     assign_all
       (zip slot_ids (map (\<lambda>c. ''assets/pictures/classic/'' @ fileName c) (selected_cards (rng pg))))
       (pg\<lparr>rng := snd (shuffled_deck (rng pg))\<rparr>)"
proof -
  have "newGame_classic pg =
     forEach_from 0
       (\<lambda>card i. set_src (''card'' @ decimal (i + 1)) (''assets/pictures/classic/'' @ fileName card))
       (selected_cards (rng pg)) (pg\<lparr>rng := snd (shuffled_deck (rng pg))\<rparr>)"
    by (simp add: newGame_classic_def selected_cards_def split_beta forEach_def)
  then show ?thesis
    unfolding forEach_from_assign
    by (simp add: length_selected_cards upt_four)
       (simp add: selected_cards_nth slot_ids_def decimal_digits decimal_Suc)
qed

lemma assign_all_fst:
  "fst (assign_all ws pg) =
     (if list_all (\<lambda>w. document pg (fst w) \<noteq> None) ws then Normal else Throw TypeError)"
proof (induction ws arbitrary: pg)
  case Nil
  show ?case by simp
next
  case (Cons w ws)
  obtain i path where w: "w = (i, path)" by (cases w)
  show ?case
    by (cases rule: set_src_cases [of pg i path]) (auto simp add: w Cons.IH list_all_iff)
qed

lemma slot_writes_fst:
  "length ps = 4 \<Longrightarrow> map fst (zip slot_ids ps) = slot_ids"
  by (simp add: slot_ids_def)

lemma slot_writes_snd:
  "length ps = 4 \<Longrightarrow> map snd (zip slot_ids ps) = ps"
  by (simp add: slot_ids_def)

lemma slot_writes_present:
  assumes "length ps = 4"
  shows "list_all (\<lambda>w. document pg (fst w) \<noteq> None) (zip slot_ids ps) = has_slots pg"
proof -
  have "list_all (\<lambda>w. document pg (fst w) \<noteq> None) (zip slot_ids ps)
      = list_all (\<lambda>ident. document pg ident \<noteq> None) (map fst (zip slot_ids ps))"
    by (simp add: list_all_iff)
  then show ?thesis by (simp only: slot_writes_fst [OF assms] has_slots_def)
qed

lemma distinct_slot_ids: "distinct slot_ids"
  by (simp add: slot_ids_def)

lemma slot_assign_fst:
  assumes "length ps = 4"
  shows "fst (assign_all (zip slot_ids ps) pg) = (if has_slots pg then Normal else Throw TypeError)"
  by (simp only: assign_all_fst slot_writes_present [OF assms])

lemma slot_assign_src:
  assumes "length ps = 4" and "has_slots pg"
  shows "map (src_of (snd (assign_all (zip slot_ids ps) pg))) slot_ids = map Some ps"
proof -
  have "map (src_of (snd (assign_all (zip slot_ids ps) pg))) (map fst (zip slot_ids ps))
      = map (\<lambda>w. Some (snd w)) (zip slot_ids ps)"
    using assms by (intro assign_all_src) (simp_all only: slot_writes_present slot_writes_fst distinct_slot_ids)
  also have "\<dots> = map Some (map snd (zip slot_ids ps))" by simp
  finally show ?thesis by (simp only: slot_writes_fst [OF assms(1)] slot_writes_snd [OF assms(1)])
qed

lemma slot_assign_other:
  assumes "length ps = 4" and "ident \<notin> set slot_ids"
  shows "document (snd (assign_all (zip slot_ids ps) pg)) ident = document pg ident"
proof -
  have "fst ` set (zip slot_ids ps) = set slot_ids"
    using slot_writes_fst [OF assms(1)] by (metis set_map)
  with assms(2) show ?thesis by (intro assign_all_other) simp
qed

lemma has_slots_rng [simp]: "has_slots (pg\<lparr>rng := rs\<rparr>) = has_slots pg"
  by (simp add: has_slots_def)

lemma newGame_fst: "fst (newGame pg) = (if has_slots pg then Normal else Throw TypeError)"
  by (simp add: newGame_assign slot_assign_fst length_selected_cards)

lemma newGame_classic_fst:
  "fst (newGame_classic pg) = (if has_slots pg then Normal else Throw TypeError)"
  by (simp add: newGame_classic_assign slot_assign_fst length_selected_cards)

lemma newGame_src:
  "has_slots pg \<Longrightarrow>
     map (src_of (snd (newGame pg))) slot_ids
       = map (\<lambda>c. Some (''assets/pictures/'' @ fileName c)) (selected_cards (rng pg))"
  by (simp add: newGame_assign slot_assign_src length_selected_cards)

lemma newGame_classic_src:
  "has_slots pg \<Longrightarrow>
     map (src_of (snd (newGame_classic pg))) slot_ids
       = map (\<lambda>c. Some (''assets/pictures/classic/'' @ fileName c)) (selected_cards (rng pg))"
  by (simp add: newGame_classic_assign slot_assign_src length_selected_cards)

lemma newGame_other:
  "ident \<notin> set slot_ids \<Longrightarrow> document (snd (newGame pg)) ident = document pg ident"
  by (simp add: newGame_assign slot_assign_other length_selected_cards)

lemma newGame_classic_other:
  "ident \<notin> set slot_ids \<Longrightarrow> document (snd (newGame_classic pg)) ident = document pg ident"
  by (simp add: newGame_classic_assign slot_assign_other length_selected_cards)

lemma newGame_listeners:
  "map_option listeners (document (snd (newGame pg)) ident)
     = map_option listeners (document pg ident)"
  by (simp add: newGame_assign assign_all_listeners)

lemma newGame_classic_listeners:
  "map_option listeners (document (snd (newGame_classic pg)) ident)
     = map_option listeners (document pg ident)"
  by (simp add: newGame_classic_assign assign_all_listeners)

lemma newGame_rng_console:
  "rng (snd (newGame pg)) = snd (shuffled_deck (rng pg)) \<and> console (snd (newGame pg)) = console pg"
  by (simp add: newGame_assign assign_all_rng_console)

lemma newGame_classic_rng_console:
  "rng (snd (newGame_classic pg)) = snd (shuffled_deck (rng pg))
   \<and> console (snd (newGame_classic pg)) = console pg"
  by (simp add: newGame_classic_assign assign_all_rng_console)

lemma newGame_dom: "dom (document (snd (newGame pg))) = dom (document pg)"
proof -
  have "document (snd (newGame pg)) ident = None \<longleftrightarrow> document pg ident = None" for ident
    using newGame_listeners [of pg ident] by (metis option.map_disc_iff)
  then show ?thesis by (auto simp: dom_def)
qed

lemma onload_fst:
  "fst (onload pg) =
     (if document pg ''new-game-btn'' \<noteq> None \<and> has_slots pg then Normal else Throw TypeError)"
  by (cases "document pg ''new-game-btn''")
     (simp_all add: onload_def getElementById_def newGame_fst has_slots_def slot_ids_def)

lemma onload_classic_fst:
  "fst (onload_classic pg) =
     (if document pg ''new-game-btn'' \<noteq> None \<and> has_slots pg then Normal else Throw TypeError)"
  by (cases "document pg ''new-game-btn''")
     (simp_all add: onload_classic_def getElementById_def newGame_classic_fst has_slots_def
        slot_ids_def)

lemma has_slots_newGame: "has_slots (snd (newGame pg)) = has_slots pg"
proof -
  have "document (snd (newGame pg)) ident \<noteq> None \<longleftrightarrow> document pg ident \<noteq> None" for ident
    using newGame_listeners [of pg ident] by (metis option.map_disc_iff)
  then show ?thesis by (simp add: has_slots_def)
qed

lemma newGame_slot_src:
  assumes "has_slots pg" and "i < 4"
  shows "src_of (snd (newGame pg)) (''card'' @ decimal (i + 1))
           = Some (''assets/pictures/'' @ fileName (fst (shuffled_deck (rng pg)) ! i))"
proof -
  from assms(2) consider "i = 0" | "i = 1" | "i = 2" | "i = 3" by linarith
  then show ?thesis
    using newGame_src [OF assms(1)]
    by cases (simp_all add: slot_ids_def selected_cards_nth decimal_digits decimal_Suc)
qed

subsection \<open>Two particular random sources\<close>

text \<open>
  When the source always returns 0.25 every comparison is negative: the whole
  deck is one descending run, which the sort reverses. When it always returns
  0.75 the whole deck is one ascending run and stays as it is.
\<close>

lemma comparefn_low: "comparefn always_low = (- (1 / 4), always_low)"
  by (simp add: comparefn_def Math_random_def always_low_def)

lemma comparefn_high: "comparefn always_high = (1 / 4, always_high)"
  by (simp add: comparefn_def Math_random_def always_high_def)

lemma count_run_low:
  "count_run True high idx n always_low = (n + (high - idx), always_low)"
proof (induction "high - idx" arbitrary: idx n)
  case 0
  then show ?case by (subst count_run.simps) simp
next
  case (Suc k)
  then have "idx < high" and "k = high - (idx + 1)" by auto
  with Suc.hyps(1) [of "idx + 1" "n + 1"] show ?case
    by (subst count_run.simps) (simp add: comparefn_low)
qed

lemma count_run_high:
  "count_run False high idx n always_high = (n + (high - idx), always_high)"
proof (induction "high - idx" arbitrary: idx n)
  case 0
  then show ?case by (subst count_run.simps) simp
next
  case (Suc k)
  then have "idx < high" and "k = high - (idx + 1)" by auto
  with Suc.hyps(1) [of "idx + 1" "n + 1"] show ?case
    by (subst count_run.simps) (simp add: comparefn_high)
qed

lemma array_sort_low:
  assumes "2 \<le> length work"
  shows "array_sort work always_low = (rev work, always_low)"
proof -
  have "count_run True (length work) 2 2 always_low = (length work, always_low)"
    using assms by (simp add: count_run_low)
  moreover have "binary_insertion_sort (rev work) (length work) (length work) always_low
      = (rev work, always_low)"
    by (subst binary_insertion_sort.simps) simp
  ultimately show ?thesis
    using assms by (simp add: array_sort_def comparefn_low reverse_range_def)
qed

lemma array_sort_high:
  assumes "2 \<le> length work"
  shows "array_sort work always_high = (work, always_high)"
proof -
  have "count_run False (length work) 2 2 always_high = (length work, always_high)"
    using assms by (simp add: count_run_high)
  moreover have "binary_insertion_sort work (length work) (length work) always_high
      = (work, always_high)"
    by (subst binary_insertion_sort.simps) simp
  ultimately show ?thesis
    using assms by (simp add: array_sort_def comparefn_high)
qed

lemma selected_cards_low:
  "selected_cards always_low =
     [\<lparr>cvalue = ''K'', suitCode = ''S'', fileName = ''KS.png''\<rparr>,
      \<lparr>cvalue = ''K'', suitCode = ''C'', fileName = ''KC.png''\<rparr>,
      \<lparr>cvalue = ''K'', suitCode = ''D'', fileName = ''KD.png''\<rparr>,
      \<lparr>cvalue = ''K'', suitCode = ''H'', fileName = ''KH.png''\<rparr>]"
  by (simp add: selected_cards_take shuffled_deck_def array_sort_low length_build_deck)
     (simp add: build_deck_def flatMap_def Object_entries_def CARD_VALUES_def CARD_SUITS_def)

lemma selected_cards_high:
  "selected_cards always_high =
     [\<lparr>cvalue = ''A'', suitCode = ''H'', fileName = ''AH.png''\<rparr>,
      \<lparr>cvalue = ''A'', suitCode = ''D'', fileName = ''AD.png''\<rparr>,
      \<lparr>cvalue = ''A'', suitCode = ''C'', fileName = ''AC.png''\<rparr>,
      \<lparr>cvalue = ''A'', suitCode = ''S'', fileName = ''AS.png''\<rparr>]"
  by (simp add: selected_cards_take shuffled_deck_def array_sort_high length_build_deck)
     (simp add: build_deck_def flatMap_def Object_entries_def CARD_VALUES_def CARD_SUITS_def)

text \<open>
  A source that mixes the deck: the first comparison is negative and the
  second is not, so the initial run is the first two cards, reversed; the
  other fifty cards are inserted by binary search.
\<close>

lemma selected_cards_every_third_low:
  "map fileName (selected_cards every_third_low)
     = [''AD.png'', ''AS.png'', ''AH.png'', ''2S.png'']"
  by code_simp

lemma has_slots_game_page: "has_slots (game_page rs)"
  by (simp add: has_slots_def slot_ids_def game_page_def)

lemma shuffled_deck_high: "shuffled_deck always_high = (build_deck, always_high)"
  by (simp add: shuffled_deck_def array_sort_high length_build_deck)

subsection \<open>Selection and display\<close>

lemma assign_all_append:
  "assign_all (xs @ ys) pg =
     (case assign_all xs pg of
        (Normal, pg') \<Rightarrow> assign_all ys pg'
      | (Throw e, pg') \<Rightarrow> (Throw e, pg'))"
proof (induction xs arbitrary: pg)
  case Nil
  show ?case by simp
next
  case (Cons w xs)
  obtain i path where w: "w = (i, path)" by (cases w)
  show ?case
    by (cases rule: set_src_cases [of pg i path]) (simp_all add: w Cons.IH)
qed

lemma assign_all_prefix_src:
  assumes present: "list_all (\<lambda>w. document pg (fst w) \<noteq> None) xs"
    and dist: "distinct (map fst (xs @ ys))"
    and mem: "(ident, path) \<in> set xs"
  shows "src_of (snd (assign_all (xs @ ys) pg)) ident = Some path"
proof -
  obtain pg1 where run: "assign_all xs pg = (Normal, pg1)"
    using assign_all_fst [of xs pg] present by (cases "assign_all xs pg") simp
  have dx: "distinct (map fst xs)" using dist by simp
  have "map (src_of (snd (assign_all xs pg))) (map fst xs) = map (\<lambda>w. Some (snd w)) xs"
    by (rule assign_all_src [OF present dx])
  then have all: "map (\<lambda>w. src_of pg1 (fst w)) xs = map (\<lambda>w. Some (snd w)) xs"
    by (simp add: run comp_def)
  have here: "src_of pg1 ident = Some path"
    using map_eq_conv [THEN iffD1, OF all] mem by fastforce
  have "ident \<notin> fst ` set ys" using dist mem by force
  then have "document (snd (assign_all ys pg1)) ident = document pg1 ident"
    by (rule assign_all_other)
  then show ?thesis using here by (simp add: assign_all_append run src_of_def)
qed

lemma newGame_prefix_src:
  assumes "i < 4"
    and "list_all (\<lambda>ident. document pg ident \<noteq> None) (take (i + 1) slot_ids)"
  shows "src_of (snd (newGame pg)) (''card'' @ decimal (i + 1))
           = Some (''assets/pictures/'' @ fileName (fst (shuffled_deck (rng pg)) ! i))"
proof -
  let ?p = "\<lambda>k. ''assets/pictures/'' @ fileName (fst (shuffled_deck (rng pg)) ! k)"
  let ?pg = "pg\<lparr>rng := snd (shuffled_deck (rng pg))\<rparr>"
  let ?ws = "[(''card1'', ?p 0), (''card2'', ?p 1), (''card3'', ?p 2), (''card4'', ?p 3)]"
  have ng: "newGame pg = assign_all ?ws ?pg"
    unfolding newGame_assign by (simp add: selected_cards_nth slot_ids_def)
  from assms(1) consider "i = 0" | "i = 1" | "i = 2" | "i = 3" by linarith
  then show ?thesis
  proof cases
    case 1
    then show ?thesis
      using assms(2) assign_all_prefix_src [of ?pg "take 1 ?ws" "drop 1 ?ws" "''card1''" "?p 0"]
      by (simp add: ng slot_ids_def decimal_digits decimal_Suc)
  next
    case 2
    then show ?thesis
      using assms(2) assign_all_prefix_src [of ?pg "take 2 ?ws" "drop 2 ?ws" "''card2''" "?p 1"]
      by (simp add: ng slot_ids_def decimal_digits decimal_Suc)
  next
    case 3
    then show ?thesis
      using assms(2) assign_all_prefix_src [of ?pg "take 3 ?ws" "drop 3 ?ws" "''card3''" "?p 2"]
      by (simp add: ng slot_ids_def decimal_digits decimal_Suc)
  next
    case 4
    then show ?thesis
      using assms(2) assign_all_prefix_src [of ?pg "take 4 ?ws" "drop 4 ?ws" "''card4''" "?p 3"]
      by (simp add: ng slot_ids_def decimal_digits decimal_Suc)
  qed
qed


text \<open>
  A document without \<^verbatim>\<open>card3\<close>: the first two slots have their paths when the
  third assignment throws, and \<^verbatim>\<open>card4\<close> is never reached.
\<close>

lemma newGame_stops_at_missing_slot:
  "newGame (page_without_card3 always_low)
     = (Throw TypeError,
        \<lparr>document = [''new-game-btn'' \<mapsto> blank_element,
                     ''card1'' \<mapsto> \<lparr>src = ''assets/pictures/KS.png'', listeners = []\<rparr>,
                     ''card2'' \<mapsto> \<lparr>src = ''assets/pictures/KC.png'', listeners = []\<rparr>,
                     ''card4'' \<mapsto> blank_element],
         rng = always_low, console = []\<rparr>)"
proof -
  have "shuffled_deck always_low = (rev build_deck, always_low)"
    by (simp add: shuffled_deck_def array_sort_low length_build_deck)
  then show ?thesis
    by (simp add: newGame_assign page_without_card3_def selected_cards_low slot_ids_def
        set_src_def getElementById_def blank_element_def fun_upd_twist)
qed

lemma slot_sources_without_card3:
  "map (src_of (snd (newGame (page_without_card3 always_low)))) slot_ids
     = [Some ''assets/pictures/KS.png'', Some ''assets/pictures/KC.png'', None, Some []]"
  by (simp add: newGame_stops_at_missing_slot src_of_def slot_ids_def blank_element_def)

lemma shuffled_deck_low_nth:
  "fileName (fst (shuffled_deck always_low) ! 1) = ''KC.png''"
  "fileName (fst (shuffled_deck always_low) ! 3) = ''KH.png''"
  using selected_cards_low selected_cards_nth [of always_low] by simp_all

text \<open>
  C1 says that in every invocation the four selected cards are displayed.
  That fails on a document that lacks a slot: on the page without \<^verbatim>\<open>card3\<close>
  four cards are selected, the loop throws, and two cards only are shown.
\<close>

theorem selected_cards_not_all_displayed:
  "length (selected_cards (rng (page_without_card3 always_low))) = 4
   \<and> fst (newGame (page_without_card3 always_low)) = Throw TypeError
   \<and> map (src_of (snd (newGame (page_without_card3 always_low)))) slot_ids
       = [Some ''assets/pictures/KS.png'', Some ''assets/pictures/KC.png'', None, Some []]"
proof -
  have "fst (newGame (page_without_card3 always_low)) = Throw TypeError"
    by (simp add: newGame_stops_at_missing_slot)
  then show ?thesis
    using slot_sources_without_card3 by (simp add: length_selected_cards)
qed

text \<open>
  C1, as it holds. For every sequence of random values, the cards that
  \<^verbatim>\<open>newGame\<close> takes from the sorted deck are exactly four, with pairwise
  distinct (rank, suit code) pairs, and these four are the cards handed to the
  display loop. On a document that has the four slots the loop completes and
  the slots show the paths of these four cards; on any other document the loop
  throws a \<^verbatim>\<open>TypeError\<close>.
\<close>

theorem four_distinct_cards_selected_and_displayed:
  "length (selected_cards rs) = 4
   \<and> distinct (map card_key (selected_cards rs))
   \<and> newGame pg =
       assign_all
         (zip slot_ids (map (\<lambda>c. ''assets/pictures/'' @ fileName c) (selected_cards (rng pg))))
         (pg\<lparr>rng := snd (shuffled_deck (rng pg))\<rparr>)
   \<and> (has_slots pg \<longrightarrow>
        fst (newGame pg) = Normal
        \<and> map (src_of (snd (newGame pg))) slot_ids
            = map (\<lambda>c. Some (''assets/pictures/'' @ fileName c)) (selected_cards (rng pg)))
   \<and> (\<not> has_slots pg \<longrightarrow> fst (newGame pg) = Throw TypeError)"
  using length_selected_cards [of rs] distinct_selected_keys [of rs] newGame_assign [of pg]
    newGame_src [of pg] newGame_fst [of pg]
  by simp

theorem four_distinct_cards_selected_and_displayed_witness:
  "has_slots (game_page always_low)
   \<and> fst (newGame (game_page always_low)) = Normal
   \<and> map (src_of (snd (newGame (game_page always_low)))) slot_ids
       = [Some ''assets/pictures/KS.png'', Some ''assets/pictures/KC.png'',
          Some ''assets/pictures/KD.png'', Some ''assets/pictures/KH.png'']
   \<and> \<not> has_slots (page_without_card3 always_high)
   \<and> fst (newGame (page_without_card3 always_high)) = Throw TypeError"
proof -
  have hs: "has_slots (game_page always_low)" by (rule has_slots_game_page)
  have no: "\<not> has_slots (page_without_card3 always_high)"
    by (simp add: has_slots_def slot_ids_def page_without_card3_def)
  have "fst (newGame (game_page always_low)) = Normal
        \<and> map (src_of (snd (newGame (game_page always_low)))) slot_ids
            = map (\<lambda>c. Some (''assets/pictures/'' @ fileName c))
                (selected_cards (rng (game_page always_low)))"
    using four_distinct_cards_selected_and_displayed [of always_low "game_page always_low"] hs
    by blast
  moreover have "fst (newGame (page_without_card3 always_high)) = Throw TypeError"
    using four_distinct_cards_selected_and_displayed
      [of always_high "page_without_card3 always_high"] no
    by blast
  moreover have "rng (game_page always_low) = always_low" by (simp add: game_page_def)
  ultimately show ?thesis using hs no by (simp add: selected_cards_low)
qed

text \<open>
  C10 says that in every invocation each slot \<^verbatim>\<open>card(i+1)\<close> is assigned the path
  of the card at index \<open>i\<close>. That fails for a slot that comes after a missing
  one: on the page without \<^verbatim>\<open>card3\<close> the element \<^verbatim>\<open>card4\<close> exists and keeps its
  empty source, while the fourth card of the sorted deck is the king of hearts.
\<close>

theorem existing_slot_left_unassigned:
  "document (page_without_card3 always_low) ''card4'' = Some blank_element
   \<and> src_of (snd (newGame (page_without_card3 always_low))) ''card4'' = Some []
   \<and> ''assets/pictures/'' @ fileName (fst (shuffled_deck (rng (page_without_card3 always_low))) ! 3)
       = ''assets/pictures/KH.png''"
proof -
  have "rng (page_without_card3 always_low) = always_low"
    and "document (page_without_card3 always_low) ''card4'' = Some blank_element"
    by (simp_all add: page_without_card3_def)
  moreover have "src_of (snd (newGame (page_without_card3 always_low))) ''card4'' = Some []"
    using slot_sources_without_card3 by (simp add: slot_ids_def)
  ultimately show ?thesis by (simp add: shuffled_deck_low_nth)
qed

text \<open>
  C10, as it holds. \<^verbatim>\<open>newGame\<close> is the sequence of the four assignments to
  \<^verbatim>\<open>card1\<close>, \<^verbatim>\<open>card2\<close>, \<^verbatim>\<open>card3\<close>, \<^verbatim>\<open>card4\<close>, in this order, of the directory
  \<^verbatim>\<open>assets/pictures/\<close> followed by the file name of the first, second, third and
  fourth card of the sorted deck; the first assignment to a missing slot throws
  and ends the sequence. No element with another id is changed. Slot
  \<^verbatim>\<open>card(i+1)\<close> ends with the path of the card at index \<open>i\<close> whenever the slots
  up to and including it exist; on a document that has the four slots every
  assignment is carried out, and on any other document \<^verbatim>\<open>newGame\<close> throws a
  \<^verbatim>\<open>TypeError\<close>.
\<close>

theorem slots_receive_cards_in_shuffle_order:
  "newGame pg =
     assign_all
       [(''card1'', ''assets/pictures/'' @ fileName (fst (shuffled_deck (rng pg)) ! 0)),
        (''card2'', ''assets/pictures/'' @ fileName (fst (shuffled_deck (rng pg)) ! 1)),
        (''card3'', ''assets/pictures/'' @ fileName (fst (shuffled_deck (rng pg)) ! 2)),
        (''card4'', ''assets/pictures/'' @ fileName (fst (shuffled_deck (rng pg)) ! 3))]
       (pg\<lparr>rng := snd (shuffled_deck (rng pg))\<rparr>)
   \<and> (\<forall>ident. ident \<notin> set [''card1'', ''card2'', ''card3'', ''card4''] \<longrightarrow>
         document (snd (newGame pg)) ident = document pg ident)
   \<and> (has_slots pg \<longrightarrow>
        fst (newGame pg) = Normal
        \<and> (\<forall>i<4. src_of (snd (newGame pg)) (''card'' @ decimal (i + 1))
                   = Some (''assets/pictures/'' @ fileName (fst (shuffled_deck (rng pg)) ! i))))
   \<and> (\<forall>i<4. list_all (\<lambda>ident. document pg ident \<noteq> None) (take (i + 1) slot_ids) \<longrightarrow>
         src_of (snd (newGame pg)) (''card'' @ decimal (i + 1))
           = Some (''assets/pictures/'' @ fileName (fst (shuffled_deck (rng pg)) ! i)))
   \<and> (\<not> has_slots pg \<longrightarrow> fst (newGame pg) = Throw TypeError)"
proof -
  have "newGame pg =
     assign_all
       [(''card1'', ''assets/pictures/'' @ fileName (fst (shuffled_deck (rng pg)) ! 0)),
        (''card2'', ''assets/pictures/'' @ fileName (fst (shuffled_deck (rng pg)) ! 1)),
        (''card3'', ''assets/pictures/'' @ fileName (fst (shuffled_deck (rng pg)) ! 2)),
        (''card4'', ''assets/pictures/'' @ fileName (fst (shuffled_deck (rng pg)) ! 3))]
       (pg\<lparr>rng := snd (shuffled_deck (rng pg))\<rparr>)"
    unfolding newGame_assign by (simp add: selected_cards_nth slot_ids_def)
  moreover have "\<forall>ident. ident \<notin> set [''card1'', ''card2'', ''card3'', ''card4''] \<longrightarrow>
         document (snd (newGame pg)) ident = document pg ident"
    using newGame_other [of _ pg] by (simp add: slot_ids_def)
  moreover have "\<forall>i<4. list_all (\<lambda>ident. document pg ident \<noteq> None) (take (i + 1) slot_ids) \<longrightarrow>
         src_of (snd (newGame pg)) (''card'' @ decimal (i + 1))
           = Some (''assets/pictures/'' @ fileName (fst (shuffled_deck (rng pg)) ! i))"
    using newGame_prefix_src [of _ pg] by blast
  ultimately show ?thesis
    using newGame_fst [of pg] newGame_slot_src [of pg] by simp
qed

theorem slots_receive_cards_in_shuffle_order_witness:
  "has_slots (game_page always_high)
   \<and> (2::nat) < 4
   \<and> fst (newGame (game_page always_high)) = Normal
   \<and> src_of (snd (newGame (game_page always_high))) ''card3'' = Some ''assets/pictures/AC.png''
   \<and> ''new-game-btn'' \<notin> set [''card1'', ''card2'', ''card3'', ''card4'']
   \<and> document (snd (newGame (game_page always_high))) ''new-game-btn'' = Some blank_element
   \<and> (1::nat) < 4
   \<and> document (page_without_card3 always_low) ''card1'' \<noteq> None
   \<and> document (page_without_card3 always_low) ''card2'' \<noteq> None
   \<and> src_of (snd (newGame (page_without_card3 always_low))) ''card2''
       = Some ''assets/pictures/KC.png''
   \<and> \<not> has_slots (page_without_card3 always_low)
   \<and> fst (newGame (page_without_card3 always_low)) = Throw TypeError"
proof -
  have hs: "has_slots (game_page always_high)" by (rule has_slots_game_page)
  have btn: "''new-game-btn'' \<notin> set [''card1'', ''card2'', ''card3'', ''card4'']" by simp
  have lt: "(2::nat) < 4" by simp
  have "fst (newGame (game_page always_high)) = Normal
        \<and> src_of (snd (newGame (game_page always_high))) (''card'' @ decimal (2 + 1))
            = Some (''assets/pictures/'' @
                fileName (fst (shuffled_deck (rng (game_page always_high))) ! 2))
        \<and> document (snd (newGame (game_page always_high))) ''new-game-btn''
            = document (game_page always_high) ''new-game-btn''"
    using slots_receive_cards_in_shuffle_order [of "game_page always_high"] hs btn lt by blast
  moreover have "rng (game_page always_high) = always_high"
    and "document (game_page always_high) ''new-game-btn'' = Some blank_element"
    by (simp_all add: game_page_def)
  moreover have "fileName (build_deck ! 2) = ''AC.png''"
    by (simp add: build_deck_def flatMap_def Object_entries_def CARD_VALUES_def CARD_SUITS_def)
  ultimately have full: "fst (newGame (game_page always_high)) = Normal
      \<and> src_of (snd (newGame (game_page always_high))) ''card3'' = Some ''assets/pictures/AC.png''
      \<and> document (snd (newGame (game_page always_high))) ''new-game-btn'' = Some blank_element"
    by (simp add: shuffled_deck_high decimal_digits)
  have c1: "document (page_without_card3 always_low) ''card1'' \<noteq> None"
    and c2: "document (page_without_card3 always_low) ''card2'' \<noteq> None"
    by (simp_all add: page_without_card3_def)
  have lt1: "(1::nat) < 4" by simp
  have pre: "list_all (\<lambda>ident. document (page_without_card3 always_low) ident \<noteq> None)
      (take (1 + 1) slot_ids)"
    using c1 c2 by (simp add: slot_ids_def)
  have no: "\<not> has_slots (page_without_card3 always_low)"
    by (simp add: has_slots_def slot_ids_def page_without_card3_def)
  have "src_of (snd (newGame (page_without_card3 always_low))) (''card'' @ decimal (1 + 1))
          = Some (''assets/pictures/'' @
              fileName (fst (shuffled_deck (rng (page_without_card3 always_low))) ! 1))
        \<and> fst (newGame (page_without_card3 always_low)) = Throw TypeError"
    using slots_receive_cards_in_shuffle_order [of "page_without_card3 always_low"] lt1 pre no
    by blast
  moreover have "rng (page_without_card3 always_low) = always_low"
    by (simp add: page_without_card3_def)
  moreover have "fileName (fst (shuffled_deck always_low) ! Suc 0) = ''KC.png''"
    using shuffled_deck_low_nth(1) by simp
  ultimately have part: "src_of (snd (newGame (page_without_card3 always_low))) ''card2''
        = Some ''assets/pictures/KC.png''
      \<and> fst (newGame (page_without_card3 always_low)) = Throw TypeError"
    by (simp add: decimal_digits decimal_Suc)
  show ?thesis using hs btn full c1 c2 no part by simp
qed

subsection \<open>Errors\<close>

text \<open>
  C7 says that nothing in \<^verbatim>\<open>newGame\<close> and the load handler can throw. That
  fails on documents that lack an element: the load handler throws on a
  document without the button, \<^verbatim>\<open>newGame\<close> on a document without \<^verbatim>\<open>card3\<close>.
\<close>

theorem missing_element_throws:
  "fst (onload (empty_page always_low)) = Throw TypeError
   \<and> fst (newGame (page_without_card3 always_low)) = Throw TypeError"
proof -
  have "\<not> has_slots (page_without_card3 always_low)"
    by (simp add: has_slots_def slot_ids_def page_without_card3_def)
  moreover have "document (empty_page always_low) ''new-game-btn'' = None"
    by (simp add: empty_page_def)
  ultimately show ?thesis by (simp add: newGame_fst onload_fst)
qed

text \<open>
  C7, as it holds. \<^verbatim>\<open>newGame\<close> completes without an error exactly on the
  documents that have the four slots, and the load handler exactly on those
  that also have the button, for every sequence of random values; the error
  otherwise is the \<^verbatim>\<open>TypeError\<close> of a property access on \<^verbatim>\<open>null\<close>. Building and
  sorting the deck never fails.
\<close>

theorem no_error_iff_elements_exist:
  "(has_slots pg \<longrightarrow> fst (newGame pg) = Normal)
   \<and> (\<not> has_slots pg \<longrightarrow> fst (newGame pg) = Throw TypeError)
   \<and> (document pg ''new-game-btn'' \<noteq> None \<and> has_slots pg \<longrightarrow> fst (onload pg) = Normal)
   \<and> (\<not> (document pg ''new-game-btn'' \<noteq> None \<and> has_slots pg) \<longrightarrow>
        fst (onload pg) = Throw TypeError)"
  by (simp add: newGame_fst onload_fst)

theorem no_error_iff_elements_exist_witness:
  "has_slots (game_page always_high)
   \<and> document (game_page always_high) ''new-game-btn'' \<noteq> None
   \<and> fst (newGame (game_page always_high)) = Normal
   \<and> fst (onload (game_page always_high)) = Normal
   \<and> \<not> has_slots (empty_page always_high)
   \<and> fst (newGame (empty_page always_high)) = Throw TypeError
   \<and> fst (onload (empty_page always_high)) = Throw TypeError"
proof -
  have hs: "has_slots (game_page always_high)" by (rule has_slots_game_page)
  have btn: "document (game_page always_high) ''new-game-btn'' \<noteq> None"
    by (simp add: game_page_def)
  have no: "\<not> has_slots (empty_page always_high)"
    by (simp add: has_slots_def slot_ids_def empty_page_def)
  show ?thesis
    using no_error_iff_elements_exist [of "game_page always_high"]
      no_error_iff_elements_exist [of "empty_page always_high"] hs btn no
    by blast
qed

subsection \<open>What newGame changes and what it depends on\<close>

text \<open>
  C8. \<^verbatim>\<open>newGame\<close> leaves the console alone, adds and removes no element,
  changes no listener, and changes no element other than the four slots; of
  the slots it changes the \<^verbatim>\<open>src\<close> only. The random source moves on by the
  values the sort has consumed. The deck is built from the two tables alone,
  so what the slots show depends on the random values only: two pages with
  the four slots and the same random values to come end up with the same four
  paths, whatever earlier rounds left in them.
\<close>

theorem newGame_changes_only_slot_sources:
  "console (snd (newGame pg)) = console pg
   \<and> dom (document (snd (newGame pg))) = dom (document pg)
   \<and> (\<forall>ident. map_option listeners (document (snd (newGame pg)) ident)
                 = map_option listeners (document pg ident))
   \<and> (\<forall>ident. ident \<notin> set slot_ids \<longrightarrow> document (snd (newGame pg)) ident = document pg ident)
   \<and> rng (snd (newGame pg)) = snd (shuffled_deck (rng pg))
   \<and> (rng pg' = rng pg \<and> has_slots pg \<and> has_slots pg' \<longrightarrow>
        map (src_of (snd (newGame pg'))) slot_ids = map (src_of (snd (newGame pg))) slot_ids
        \<and> rng (snd (newGame pg')) = rng (snd (newGame pg)))"
  using newGame_rng_console [of pg] newGame_rng_console [of pg'] newGame_dom [of pg]
    newGame_src [of pg] newGame_src [of pg']
  by (simp add: newGame_listeners newGame_other)

theorem newGame_changes_only_slot_sources_witness:
  "rng ((snd (newGame (game_page always_high)))\<lparr>rng := always_low\<rparr>) = rng (game_page always_low)
   \<and> has_slots (game_page always_low)
   \<and> has_slots ((snd (newGame (game_page always_high)))\<lparr>rng := always_low\<rparr>)
   \<and> map (src_of (snd (newGame (game_page always_high)))) slot_ids
       = [Some ''assets/pictures/AH.png'', Some ''assets/pictures/AD.png'',
          Some ''assets/pictures/AC.png'', Some ''assets/pictures/AS.png'']
   \<and> map (src_of (snd (newGame ((snd (newGame (game_page always_high)))\<lparr>rng := always_low\<rparr>))))
         slot_ids
       = map (src_of (snd (newGame (game_page always_low)))) slot_ids
   \<and> ''new-game-btn'' \<notin> set slot_ids
   \<and> document (snd (newGame (game_page always_low))) ''new-game-btn''
       = document (game_page always_low) ''new-game-btn''"
proof -
  let ?after = "(snd (newGame (game_page always_high)))\<lparr>rng := always_low\<rparr>"
  have r: "rng ?after = rng (game_page always_low)" by (simp add: game_page_def)
  have hs: "has_slots (game_page always_low)" by (rule has_slots_game_page)
  have hs': "has_slots ?after" by (simp add: has_slots_newGame has_slots_game_page)
  have btn: "''new-game-btn'' \<notin> set slot_ids" by (simp add: slot_ids_def)
  have first: "map (src_of (snd (newGame (game_page always_high)))) slot_ids
       = [Some ''assets/pictures/AH.png'', Some ''assets/pictures/AD.png'',
          Some ''assets/pictures/AC.png'', Some ''assets/pictures/AS.png'']"
    using newGame_src [OF has_slots_game_page, of always_high]
    by (simp add: game_page_def selected_cards_high)
  show ?thesis
    using newGame_changes_only_slot_sources [of "game_page always_low" ?after] r hs hs' btn first
    by blast
qed

subsection \<open>The two versions of the file\<close>

lemma onload_other:
  "ident \<notin> set slot_ids \<Longrightarrow>
     document (snd (onload_classic pg)) ident = document (snd (onload pg)) ident"
  by (cases "document pg ''new-game-btn''")
     (simp_all add: onload_def onload_classic_def getElementById_def newGame_other
        newGame_classic_other)

text \<open>
  C9. The two versions carry out the same four assignments for the same four
  cards, the second with \<^verbatim>\<open>assets/pictures/classic/\<close> in place of
  \<^verbatim>\<open>assets/pictures/\<close>. They complete or throw alike, consume the same random
  values, and agree on every element other than the slots; so do their load
  handlers. The diagnostics of the second version write to the console and
  change neither the document nor the random source.
\<close>

theorem variants_differ_only_in_base_path:
  "newGame pg =
     assign_all
       (zip slot_ids (map (\<lambda>c. ''assets/pictures/'' @ fileName c) (selected_cards (rng pg))))
       (pg\<lparr>rng := snd (shuffled_deck (rng pg))\<rparr>)
   \<and> newGame_classic pg =
     assign_all
       (zip slot_ids
          (map (\<lambda>c. ''assets/pictures/classic/'' @ fileName c) (selected_cards (rng pg))))
       (pg\<lparr>rng := snd (shuffled_deck (rng pg))\<rparr>)
   \<and> fst (newGame_classic pg) = fst (newGame pg)
   \<and> rng (snd (newGame_classic pg)) = rng (snd (newGame pg))
   \<and> console (snd (newGame_classic pg)) = console (snd (newGame pg))
   \<and> (\<forall>ident. ident \<notin> set slot_ids \<longrightarrow>
         document (snd (newGame_classic pg)) ident = document (snd (newGame pg)) ident)
   \<and> (\<forall>ident. map_option listeners (document (snd (newGame_classic pg)) ident)
                 = map_option listeners (document (snd (newGame pg)) ident))
   \<and> (has_slots pg \<longrightarrow>
        map (src_of (snd (newGame pg))) slot_ids
          = map (\<lambda>c. Some (''assets/pictures/'' @ fileName c)) (selected_cards (rng pg))
        \<and> map (src_of (snd (newGame_classic pg))) slot_ids
          = map (\<lambda>c. Some (''assets/pictures/classic/'' @ fileName c))
              (selected_cards (rng pg)))
   \<and> fst (onload_classic pg) = fst (onload pg)
   \<and> (\<forall>ident. ident \<notin> set slot_ids \<longrightarrow>
         document (snd (onload_classic pg)) ident = document (snd (onload pg)) ident)
   \<and> document (image_probe_start pg) = document pg
   \<and> rng (image_probe_start pg) = rng pg
   \<and> document (image_probe_result code loaded pg) = document pg
   \<and> rng (image_probe_result code loaded pg) = rng pg"
proof -
  have "fst (newGame_classic pg) = fst (newGame pg)"
    by (simp only: newGame_fst newGame_classic_fst)
  moreover have "rng (snd (newGame_classic pg)) = rng (snd (newGame pg))"
    and "console (snd (newGame_classic pg)) = console (snd (newGame pg))"
    using newGame_rng_console [of pg] newGame_classic_rng_console [of pg] by simp_all
  moreover have "\<forall>ident. ident \<notin> set slot_ids \<longrightarrow>
         document (snd (newGame_classic pg)) ident = document (snd (newGame pg)) ident"
    by (simp add: newGame_other newGame_classic_other)
  moreover have "\<forall>ident. map_option listeners (document (snd (newGame_classic pg)) ident)
                 = map_option listeners (document (snd (newGame pg)) ident)"
    by (simp only: newGame_listeners newGame_classic_listeners) simp
  moreover have "fst (onload_classic pg) = fst (onload pg)"
    by (simp only: onload_fst onload_classic_fst)
  moreover have "\<forall>ident. ident \<notin> set slot_ids \<longrightarrow>
         document (snd (onload_classic pg)) ident = document (snd (onload pg)) ident"
    by (simp add: onload_other)
  moreover have "document (image_probe_start pg) = document pg"
    and "rng (image_probe_start pg) = rng pg"
    and "document (image_probe_result code loaded pg) = document pg"
    and "rng (image_probe_result code loaded pg) = rng pg"
    by (simp_all add: image_probe_start_def image_probe_result_def)
  ultimately show ?thesis
    using newGame_assign [of pg] newGame_classic_assign [of pg] newGame_src [of pg]
      newGame_classic_src [of pg]
    by blast
qed

theorem variants_differ_only_in_base_path_witness:
  "has_slots (game_page always_low)
   \<and> map (src_of (snd (newGame (game_page always_low)))) slot_ids
       = [Some ''assets/pictures/KS.png'', Some ''assets/pictures/KC.png'',
          Some ''assets/pictures/KD.png'', Some ''assets/pictures/KH.png'']
   \<and> map (src_of (snd (newGame_classic (game_page always_low)))) slot_ids
       = [Some ''assets/pictures/classic/KS.png'', Some ''assets/pictures/classic/KC.png'',
          Some ''assets/pictures/classic/KD.png'', Some ''assets/pictures/classic/KH.png'']
   \<and> ''new-game-btn'' \<notin> set slot_ids
   \<and> document (snd (newGame_classic (game_page always_low))) ''new-game-btn''
       = document (snd (newGame (game_page always_low))) ''new-game-btn''"
proof -
  have hs: "has_slots (game_page always_low)" by (rule has_slots_game_page)
  have btn: "''new-game-btn'' \<notin> set slot_ids" by (simp add: slot_ids_def)
  have r: "rng (game_page always_low) = always_low" by (simp add: game_page_def)
  have "map (src_of (snd (newGame (game_page always_low)))) slot_ids
          = map (\<lambda>c. Some (''assets/pictures/'' @ fileName c))
              (selected_cards (rng (game_page always_low)))
        \<and> map (src_of (snd (newGame_classic (game_page always_low)))) slot_ids
          = map (\<lambda>c. Some (''assets/pictures/classic/'' @ fileName c))
              (selected_cards (rng (game_page always_low)))
        \<and> document (snd (newGame_classic (game_page always_low))) ''new-game-btn''
          = document (snd (newGame (game_page always_low))) ''new-game-btn''"
    using variants_differ_only_in_base_path [of "game_page always_low"] hs btn by blast
  then show ?thesis using hs btn by (simp add: r selected_cards_low)
qed

end
